theory Spec2Isabelle
  imports Main "HOL-Library.Word"
begin

section \<open>Data of the prewrite command\<close>

text \<open>
  The command under verification is \<^verbatim>\<open>kv/transaction/commands/prewrite.go\<close>: the first
  phase of the Percolator-style two-phase commit. User keys and values are byte strings,
  timestamps and time-to-live values are \<^verbatim>\<open>uint64\<close>, an operation code is a protobuf
  enum (\<^verbatim>\<open>int32\<close>), a write kind is a Go \<^verbatim>\<open>int\<close>.
\<close>

type_synonym bytes = "8 word list"
type_synonym ts = "64 word"

text \<open>An internal (storage-layer) error: a non-nil Go \<^verbatim>\<open>error\<close>, carrying its message.\<close>

datatype error = InternalError string

text \<open>
  Modelled from the spec: the operation codes of \<^verbatim>\<open>kvrpcpb.Op\<close> and the write kinds of
  \<^verbatim>\<open>mvcc.WriteKind\<close> are declared outside the source file. The spec notes that the lock
  kinds sit at a fixed offset from the operation codes (numeric adjacency); the values are
  those of the protocol definition: Put 0, Del 1, Rollback 2, Lock 3 for the operations and
  Put 1, Delete 2, Rollback 3 for the write kinds.
\<close>

definition Op_Put :: "32 word" where "Op_Put = 0"
definition Op_Del :: "32 word" where "Op_Del = 1"
definition Op_Rollback :: "32 word" where "Op_Rollback = 2"
definition Op_Lock :: "32 word" where "Op_Lock = 3"

definition WriteKindPut :: int where "WriteKindPut = 1"
definition WriteKindDelete :: int where "WriteKindDelete = 2"
definition WriteKindRollback :: int where "WriteKindRollback = 3"

record Mutation =
  Op :: "32 word"
  Key :: bytes
  Value :: bytes

record PrewriteRequest =
  StartVersion :: ts
  PrimaryLock :: bytes
  Mutations :: "Mutation list"
  LockTtl :: "64 word"

text \<open>
  Modelled from the spec: the record types of the packages \<^verbatim>\<open>mvcc\<close> and \<^verbatim>\<open>kvrpcpb\<close>
  (write record, lock, lock information, write conflict, key error, response) are declared
  outside the source file; their fields are the ones the spec lists and the command sets.
\<close>

record Write =
  w_StartTS :: ts
  w_Kind :: int

record Lock =
  Primary :: bytes
  Ts :: ts
  Ttl :: "64 word"
  Kind :: int

record LockInfo =
  li_PrimaryLock :: bytes
  li_LockVersion :: ts
  li_Key :: bytes
  li_LockTtl :: "64 word"

record WriteConflict =
  wc_StartTs :: ts
  wc_ConflictTs :: ts
  wc_Key :: bytes
  wc_Primary :: bytes

record KeyError =
  Locked :: "LockInfo option"
  Retryable :: string
  Conflict :: "WriteConflict option"

record PrewriteResponse =
  Errors :: "KeyError list"

text \<open>
  Modelled from the spec: the write buffer of the MVCC transaction context (package
  \<^verbatim>\<open>mvcc\<close>, not in the source file) holds the staged puts, deletes, locks and writes of
  one command, in the order they were staged. A value is staged as a versioned entry of
  the Default family at a timestamp, a deletion as a tombstone there, a lock in the single
  lock slot of its key, a write record in the Write family at its commit timestamp.
\<close>

datatype Modify =
  LockPut bytes Lock
| LockDelete bytes
| DefaultPut bytes ts bytes
| DefaultDelete bytes ts
| WritePut bytes ts Write

fun modifyKey :: "Modify \<Rightarrow> bytes" where
  "modifyKey (LockPut k l) = k"
| "modifyKey (LockDelete k) = k"
| "modifyKey (DefaultPut k t v) = k"
| "modifyKey (DefaultDelete k t) = k"
| "modifyKey (WritePut k t w) = k"

fun isWriteRecord :: "Modify \<Rightarrow> bool" where
  "isWriteRecord (WritePut k t w) = True"
| "isWriteRecord other = False"

text \<open>
  Modelled from the spec: the transaction context is bound to a start timestamp; its read
  operations run against a fixed snapshot, so they are taken as parameters here, with the
  result shapes the command destructures: \<^verbatim>\<open>MostRecentWrite(key)\<close> gives a write record
  (or nil), its commit timestamp and an error (or nil); \<^verbatim>\<open>GetLock(key)\<close> gives a lock
  (or nil) and an error (or nil). The staged writes do not influence the reads.
\<close>

record MvccTxn =
  StartTS :: ts
  MostRecentWrite :: "bytes \<Rightarrow> Write option \<times> ts \<times> error option"
  GetLock :: "bytes \<Rightarrow> Lock option \<times> error option"
  writes :: "Modify list"

text \<open>
  Modelled from the spec: \<^verbatim>\<open>PutLock\<close>, \<^verbatim>\<open>PutValue\<close> and \<^verbatim>\<open>DeleteValue\<close> of the
  transaction context stage one modification each; the value and the tombstone are staged
  at the context's start timestamp. \<^verbatim>\<open>Lock.Info(key)\<close> reports the primary key, the
  lock's start timestamp and its time-to-live for the given key.
\<close>

definition PutLock :: "MvccTxn \<Rightarrow> bytes \<Rightarrow> Lock \<Rightarrow> MvccTxn" where
  "PutLock txn k l = txn\<lparr>writes := writes txn @ [LockPut k l]\<rparr>"

definition PutValue :: "MvccTxn \<Rightarrow> bytes \<Rightarrow> bytes \<Rightarrow> MvccTxn" where
  "PutValue txn k v = txn\<lparr>writes := writes txn @ [DefaultPut k (StartTS txn) v]\<rparr>"

definition DeleteValue :: "MvccTxn \<Rightarrow> bytes \<Rightarrow> MvccTxn" where
  "DeleteValue txn k = txn\<lparr>writes := writes txn @ [DefaultDelete k (StartTS txn)]\<rparr>"

definition Info :: "Lock \<Rightarrow> bytes \<Rightarrow> LockInfo" where
  "Info l k = \<lparr>li_PrimaryLock = Primary l, li_LockVersion = Ts l, li_Key = k, li_LockTtl = Ttl l\<rparr>"

section \<open>The command\<close>

text \<open>
  The command holds the start timestamp of its base and the request. The request context
  (region routing) plays no part in the functions below and is left out.
\<close>

record Prewrite =
  startTs :: ts
  request :: PrewriteRequest

definition NewPrewrite :: "PrewriteRequest \<Rightarrow> Prewrite" where
  "NewPrewrite req = \<lparr>startTs = StartVersion req, request = req\<rparr>"

text \<open>
  \<^verbatim>\<open>prewriteMutation\<close> returns the pair of the source (key error, internal error), each nil
  or set, together with the transaction context after the call. The branches follow the
  source in order: the conflict test on the most recent write, the test of its error, the
  lock lookup (whose error the source never reads), the lock of another or of the same
  transaction, and the installation. The kind of the new lock is the operation code plus
  one, computed in \<^verbatim>\<open>int32\<close> and converted to \<^verbatim>\<open>int\<close>. The debug log line has no effect
  on the result.
\<close>

definition prewriteMutation ::
  "Prewrite \<Rightarrow> MvccTxn \<Rightarrow> Mutation \<Rightarrow> (KeyError option \<times> error option) \<times> MvccTxn" where
  "prewriteMutation p txn mut =
    (let key = Key mut in
     case MostRecentWrite txn key of (write, commitTs, err) \<Rightarrow>
       if write \<noteq> None \<and> commitTs \<ge> StartTS txn then
         ((Some \<lparr>Locked = None, Retryable = [],
                  Conflict = Some \<lparr>wc_StartTs = StartTS txn, wc_ConflictTs = commitTs,
                                    wc_Key = key, wc_Primary = PrimaryLock (request p)\<rparr>\<rparr>,
           None), txn)
       else if err \<noteq> None then ((None, err), txn)
       else
         (case GetLock txn key of (keyLock, err2) \<Rightarrow>
           (case keyLock of
              Some l \<Rightarrow>
                if Ts l \<noteq> StartTS txn then
                  ((Some \<lparr>Locked = Some (Info l key), Retryable = [],
                           Conflict = Some \<lparr>wc_StartTs = StartTS txn, wc_ConflictTs = Ts l,
                                             wc_Key = key, wc_Primary = PrimaryLock (request p)\<rparr>\<rparr>,
                    None), txn)
                else ((None, None), txn)
            | None \<Rightarrow>
                (let newLock = \<lparr>Primary = PrimaryLock (request p), Ts = StartTS txn,
                                Ttl = LockTtl (request p), Kind = sint (Op mut + 1)\<rparr>;
                     txn1 = PutLock txn key newLock;
                     txn2 = (if Op mut = Op_Put then PutValue txn1 key (Value mut)
                             else if Op mut = Op_Del then DeleteValue txn1 key
                             else txn1)
                 in ((None, None), txn2)))))"

text \<open>
  The loop of \<^verbatim>\<open>PrepareWrites\<close> over the mutations, with the response built so far: a key
  error is appended and the loop goes on, an internal error without a key error returns
  nil and the error at once. The context is returned as the call left it.
\<close>

fun prewriteAll ::
  "Prewrite \<Rightarrow> Mutation list \<Rightarrow> MvccTxn \<Rightarrow> PrewriteResponse
    \<Rightarrow> (PrewriteResponse option \<times> error option) \<times> MvccTxn" where
  "prewriteAll p [] txn response = ((Some response, None), txn)"
| "prewriteAll p (m # ms) txn response =
    (case prewriteMutation p txn m of
       ((Some keyError, err), txn') \<Rightarrow>
         prewriteAll p ms txn' (response\<lparr>Errors := Errors response @ [keyError]\<rparr>)
     | ((None, Some err), txn') \<Rightarrow> ((None, Some err), txn')
     | ((None, None), txn') \<Rightarrow> prewriteAll p ms txn' response)"

definition PrepareWrites ::
  "Prewrite \<Rightarrow> MvccTxn \<Rightarrow> (PrewriteResponse option \<times> error option) \<times> MvccTxn" where
  "PrepareWrites p txn = prewriteAll p (Mutations (request p)) txn \<lparr>Errors = []\<rparr>"

text \<open>\<^verbatim>\<open>WillWrite\<close> appends the key of every mutation, in order, to an empty list.\<close>

fun willWriteLoop :: "Mutation list \<Rightarrow> bytes list \<Rightarrow> bytes list" where
  "willWriteLoop [] result = result"
| "willWriteLoop (m # ms) result = willWriteLoop ms (result @ [Key m])"

definition WillWrite :: "Prewrite \<Rightarrow> bytes list" where
  "WillWrite p = willWriteLoop (Mutations (request p)) []"

section \<open>Observations on a call\<close>

text \<open>
  What one call of \<^verbatim>\<open>prewriteMutation\<close> reports and what it adds to the write buffer:
  the key error (if any), the internal error that makes \<^verbatim>\<open>PrepareWrites\<close> return at
  once (an error that comes without a key error), and the modifications staged by the call.
\<close>

definition keyErrorOf :: "Prewrite \<Rightarrow> MvccTxn \<Rightarrow> Mutation \<Rightarrow> KeyError option" where
  "keyErrorOf p txn m = fst (fst (prewriteMutation p txn m))"

definition abortsWith :: "Prewrite \<Rightarrow> MvccTxn \<Rightarrow> Mutation \<Rightarrow> error option" where
  "abortsWith p txn m =
    (case fst (prewriteMutation p txn m) of
       (None, err) \<Rightarrow> err
     | (Some keyError, err) \<Rightarrow> None)"

definition staged :: "Prewrite \<Rightarrow> MvccTxn \<Rightarrow> Mutation \<Rightarrow> Modify list" where
  "staged p txn m = drop (length (writes txn)) (writes (snd (prewriteMutation p txn m)))"

fun isLockPut :: "Modify \<Rightarrow> bool" where
  "isLockPut (LockPut k l) = True"
| "isLockPut other = False"

fun isValueChange :: "Modify \<Rightarrow> bool" where
  "isValueChange (DefaultPut k t v) = True"
| "isValueChange (DefaultDelete k t) = True"
| "isValueChange other = False"

section \<open>Concrete transactions\<close>

text \<open>
  A context over a snapshot given by two finite tables: a key outside the first table has no
  write history, a key outside the second has no lock, and neither lookup fails there. The
  buffer starts empty.
\<close>

definition snapshotTxn ::
  "ts \<Rightarrow> (bytes \<times> (Write option \<times> ts \<times> error option)) list
    \<Rightarrow> (bytes \<times> (Lock option \<times> error option)) list \<Rightarrow> MvccTxn" where
  "snapshotTxn start ws ls =
    \<lparr>StartTS = start,
     MostRecentWrite = (\<lambda>k. case map_of ws k of Some r \<Rightarrow> r | None \<Rightarrow> (None, 0, None)),
     GetLock = (\<lambda>k. case map_of ls k of Some r \<Rightarrow> r | None \<Rightarrow> (None, None)),
     writes = []\<rparr>"

text \<open>
  A transaction starting at 10 that puts the value "v1" under the key "a" (its primary
  key) and deletes the key "b"; a mutation with the operation code Rollback on the key "c".
\<close>

definition exPut :: Mutation where
  "exPut = \<lparr>Op = Op_Put, Key = [97], Value = [118, 49]\<rparr>"

definition exDel :: Mutation where
  "exDel = \<lparr>Op = Op_Del, Key = [98], Value = []\<rparr>"

definition exRollback :: Mutation where
  "exRollback = \<lparr>Op = Op_Rollback, Key = [99], Value = []\<rparr>"

definition exRequest :: PrewriteRequest where
  "exRequest = \<lparr>StartVersion = 10, PrimaryLock = [97], Mutations = [exPut, exDel],
                 LockTtl = 3000\<rparr>"

definition exCommand :: Prewrite where
  "exCommand = NewPrewrite exRequest"

text \<open>The snapshots the examples run against.\<close>

definition exFreshTxn :: MvccTxn where
  "exFreshTxn = snapshotTxn 10 [] []"

definition exConflictTxn :: MvccTxn where
  "exConflictTxn = snapshotTxn 10 [([97], (Some \<lparr>w_StartTS = 8, w_Kind = 1\<rparr>, 12, None))] []"

definition exConflictAndErrorTxn :: MvccTxn where
  "exConflictAndErrorTxn =
    snapshotTxn 10
      [([97], (Some \<lparr>w_StartTS = 8, w_Kind = 1\<rparr>, 12, Some (InternalError ''iterator closed'')))] []"

definition exOtherLock :: Lock where
  "exOtherLock = \<lparr>Primary = [112], Ts = 5, Ttl = 2000, Kind = 1\<rparr>"

definition exOwnLock :: Lock where
  "exOwnLock = \<lparr>Primary = [97], Ts = 10, Ttl = 3000, Kind = 1\<rparr>"

definition exOtherLockTxn :: MvccTxn where
  "exOtherLockTxn = snapshotTxn 10 [] [([97], (Some exOtherLock, None))]"

definition exOwnLockTxn :: MvccTxn where
  "exOwnLockTxn = snapshotTxn 10 [] [([97], (Some exOwnLock, None))]"

definition exWriteLookupFails :: "Write option \<times> ts \<times> error option" where
  "exWriteLookupFails = (None, 0, Some (InternalError ''write lookup failed''))"

definition exFailOtherLockTxn :: MvccTxn where
  "exFailOtherLockTxn =
    snapshotTxn 10 [([97], exWriteLookupFails)] [([97], (Some exOtherLock, None))]"

definition exFailOwnLockTxn :: MvccTxn where
  "exFailOwnLockTxn =
    snapshotTxn 10 [([97], exWriteLookupFails)] [([97], (Some exOwnLock, None))]"

definition exFailUnlockedTxn :: MvccTxn where
  "exFailUnlockedTxn = snapshotTxn 10 [([97], exWriteLookupFails), ([99], exWriteLookupFails)] []"

definition exLockLookupFailsTxn :: MvccTxn where
  "exLockLookupFailsTxn =
    snapshotTxn 10 [] [([97], (None, Some (InternalError ''lock lookup failed'')))]"

definition exMixedTxn :: MvccTxn where
  "exMixedTxn =
    snapshotTxn 10 [([97], (Some \<lparr>w_StartTS = 8, w_Kind = 1\<rparr>, 12, None))]
      [([98], (Some exOtherLock, None))]"

definition exAbortTxn :: MvccTxn where
  "exAbortTxn =
    snapshotTxn 10 [([98], exWriteLookupFails)] [([97], (Some exOtherLock, None))]"

definition exElsewhereTxn :: MvccTxn where
  "exElsewhereTxn =
    snapshotTxn 10 [([120], (Some \<lparr>w_StartTS = 8, w_Kind = 1\<rparr>, 12, None))]
      [([121], (Some exOtherLock, None))]"

text \<open>The key "c" under the lock that the Rollback mutation of the transaction stages.\<close>

definition exOwnRollbackLock :: Lock where
  "exOwnRollbackLock = \<lparr>Primary = [97], Ts = 10, Ttl = 3000, Kind = 3\<rparr>"

definition exOwnRollbackLockTxn :: MvccTxn where
  "exOwnRollbackLockTxn = snapshotTxn 10 [] [([99], (Some exOwnRollbackLock, None))]"

section \<open>Facts about one call\<close>

lemmas example_defs =
  snapshotTxn_def exPut_def exDel_def exRollback_def exRequest_def exCommand_def
  NewPrewrite_def exFreshTxn_def exConflictTxn_def exConflictAndErrorTxn_def exOtherLock_def
  exOwnLock_def exOtherLockTxn_def exOwnLockTxn_def exWriteLookupFails_def
  exFailOtherLockTxn_def exFailOwnLockTxn_def exFailUnlockedTxn_def exLockLookupFailsTxn_def
  exMixedTxn_def exAbortTxn_def exElsewhereTxn_def exOwnRollbackLock_def
  exOwnRollbackLockTxn_def
  Op_Put_def Op_Del_def Op_Rollback_def WriteKindPut_def WriteKindDelete_def

lemmas call_defs =
  prewriteMutation_def PutLock_def PutValue_def DeleteValue_def Info_def Let_def

text \<open>A call changes nothing of the context but the buffer, and only appends to it.\<close>

lemma prewriteMutation_frame:
  "snd (prewriteMutation p txn m) = txn\<lparr>writes := writes txn @ staged p txn m\<rparr>"
  by (simp add: staged_def call_defs split: prod.splits option.splits)

lemma staged_keys: "w \<in> set (staged p txn m) \<Longrightarrow> modifyKey w = Key m"
  by (auto simp: staged_def call_defs split: prod.splits option.splits if_splits)

text \<open>The reported pair does not depend on the buffer.\<close>

lemma prewriteMutation_result_writes:
  "fst (prewriteMutation p (txn\<lparr>writes := ws\<rparr>) m) = fst (prewriteMutation p txn m)"
  by (auto simp: call_defs split: prod.splits option.splits)

lemma keyErrorOf_writes: "keyErrorOf p (txn\<lparr>writes := ws\<rparr>) = keyErrorOf p txn"
  by (rule ext) (simp add: keyErrorOf_def prewriteMutation_result_writes)

lemma abortsWith_writes: "abortsWith p (txn\<lparr>writes := ws\<rparr>) = abortsWith p txn"
  by (rule ext) (simp add: abortsWith_def prewriteMutation_result_writes)

text \<open>A call reads the snapshot at the key of its mutation only.\<close>

lemma prewriteMutation_reads_key:
  assumes "StartTS t' = StartTS t"
    and "MostRecentWrite t' (Key m) = MostRecentWrite t (Key m)"
    and "GetLock t' (Key m) = GetLock t (Key m)"
  shows "fst (prewriteMutation p t' m) = fst (prewriteMutation p t m)"
    and "staged p t' m = staged p t m"
  using assms by (simp_all add: staged_def call_defs split: prod.splits option.splits)

section \<open>Facts about the loops\<close>

lemma willWriteLoop_map: "willWriteLoop ms result = result @ map Key ms"
  by (induction ms arbitrary: result) simp_all

text \<open>
  The result of the loop, read off the snapshot the loop started with: the first mutation
  that fails internally decides, otherwise the key errors are collected in order.
\<close>

lemma prewriteAll_result:
  "fst (prewriteAll p ms txn response) =
    (case find (\<lambda>m. abortsWith p txn m \<noteq> None) ms of
       None \<Rightarrow>
         (Some (response\<lparr>Errors := Errors response @ List.map_filter (keyErrorOf p txn) ms\<rparr>),
          None)
     | Some m \<Rightarrow> (None, abortsWith p txn m))"
proof (induction ms arbitrary: txn response)
  case Nil
  show ?case by (simp add: List.map_filter_simps)
next
  case (Cons m ms)
  let ?t = "txn\<lparr>writes := writes txn @ staged p txn m\<rparr>"
  obtain ke e where f: "fst (prewriteMutation p txn m) = (ke, e)"
    by (cases "fst (prewriteMutation p txn m)")
  have pm: "prewriteMutation p txn m = ((ke, e), ?t)"
    using f prewriteMutation_frame [of p txn m] by (simp add: prod_eq_iff)
  have ke: "keyErrorOf p txn m = ke"
    and ab: "abortsWith p txn m = (case ke of None \<Rightarrow> e | Some k \<Rightarrow> None)"
    using f by (simp_all add: keyErrorOf_def abortsWith_def split: option.splits)
  show ?case
  proof (cases ke)
    case (Some k)
    have "fst (prewriteAll p (m # ms) txn response) =
        fst (prewriteAll p ms ?t (response\<lparr>Errors := Errors response @ [k]\<rparr>))"
      using pm Some by simp
    also have "\<dots> =
        (case find (\<lambda>m. abortsWith p txn m \<noteq> None) ms of
           None \<Rightarrow>
             (Some (response\<lparr>Errors :=
                Errors response @ k # List.map_filter (keyErrorOf p txn) ms\<rparr>), None)
         | Some m \<Rightarrow> (None, abortsWith p txn m))"
      by (simp add: Cons.IH keyErrorOf_writes abortsWith_writes cong: option.case_cong)
    finally show ?thesis
      using ke ab Some
      by (simp add: List.map_filter_simps cong: option.case_cong del: prewriteAll.simps)
  next
    case None
    show ?thesis
    proof (cases e)
      case (Some err)
      then show ?thesis using pm ke ab None by simp
    next
      case None2: None
      have "fst (prewriteAll p (m # ms) txn response) = fst (prewriteAll p ms ?t response)"
        using pm None None2 by simp
      also have "\<dots> =
          (case find (\<lambda>m. abortsWith p txn m \<noteq> None) ms of
             None \<Rightarrow>
               (Some (response\<lparr>Errors :=
                  Errors response @ List.map_filter (keyErrorOf p txn) ms\<rparr>), None)
           | Some m \<Rightarrow> (None, abortsWith p txn m))"
        by (simp add: Cons.IH keyErrorOf_writes abortsWith_writes cong: option.case_cong)
      finally show ?thesis
        using ke ab None None2
        by (simp add: List.map_filter_simps cong: option.case_cong del: prewriteAll.simps)
    qed
  qed
qed

text \<open>The loop only appends to the buffer, and only modifications of mutation keys.\<close>

lemma prewriteAll_frame:
  "\<exists>ws. snd (prewriteAll p ms txn response) = txn\<lparr>writes := writes txn @ ws\<rparr>
     \<and> modifyKey ` set ws \<subseteq> Key ` set ms"
proof (induction ms arbitrary: txn response)
  case Nil
  show ?case by (intro exI [of _ "[]"]) simp
next
  case (Cons m ms)
  let ?t = "txn\<lparr>writes := writes txn @ staged p txn m\<rparr>"
  obtain ke e where f: "fst (prewriteMutation p txn m) = (ke, e)"
    by (cases "fst (prewriteMutation p txn m)")
  have r: "prewriteMutation p txn m = ((ke, e), ?t)"
    using f prewriteMutation_frame [of p txn m] by (simp add: prod_eq_iff)
  have k: "modifyKey ` set (staged p txn m) \<subseteq> Key ` set (m # ms)"
    using staged_keys [of _ p txn m] by auto
  have go: "\<exists>ws. snd (prewriteAll p ms ?t r') = txn\<lparr>writes := writes txn @ ws\<rparr>
      \<and> modifyKey ` set ws \<subseteq> Key ` set (m # ms)" for r'
  proof -
    obtain ws where ws: "snd (prewriteAll p ms ?t r') = ?t\<lparr>writes := writes ?t @ ws\<rparr>"
      and sub: "modifyKey ` set ws \<subseteq> Key ` set ms"
      using Cons.IH [of ?t r'] by blast
    have "snd (prewriteAll p ms ?t r') = txn\<lparr>writes := writes txn @ (staged p txn m @ ws)\<rparr>"
      using ws by simp
    moreover have "modifyKey ` set (staged p txn m @ ws) \<subseteq> Key ` set (m # ms)"
      using k sub by auto
    ultimately show ?thesis by blast
  qed
  show ?case
  proof (cases ke)
    case (Some k)
    have eq: "prewriteAll p (m # ms) txn response =
        prewriteAll p ms ?t (response\<lparr>Errors := Errors response @ [k]\<rparr>)"
      using r Some by simp
    show ?thesis unfolding eq by (rule go)
  next
    case None
    show ?thesis
    proof (cases e)
      case (Some err)
      have eq: "prewriteAll p (m # ms) txn response = ((None, Some err), ?t)"
        using r None Some by simp
      show ?thesis unfolding eq
        by (intro exI [of _ "staged p txn m"]) (use k in simp)
    next
      case None2: None
      have eq: "prewriteAll p (m # ms) txn response = prewriteAll p ms ?t response"
        using r None None2 by simp
      show ?thesis unfolding eq by (rule go)
    qed
  qed
qed

text \<open>The loop reads the snapshot at the keys of its mutations only.\<close>

lemma prewriteAll_reads_keys:
  assumes "StartTS t' = StartTS t" and "writes t' = writes t"
    and "\<forall>k\<in>Key ` set ms.
           MostRecentWrite t' k = MostRecentWrite t k \<and> GetLock t' k = GetLock t k"
  shows "fst (prewriteAll p ms t' response) = fst (prewriteAll p ms t response)
    \<and> writes (snd (prewriteAll p ms t' response)) = writes (snd (prewriteAll p ms t response))"
  using assms
proof (induction ms arbitrary: t t' response)
  case Nil
  then show ?case by simp
next
  case (Cons m ms)
  let ?u = "t\<lparr>writes := writes t @ staged p t m\<rparr>"
  let ?u' = "t'\<lparr>writes := writes t' @ staged p t' m\<rparr>"
  have same: "fst (prewriteMutation p t' m) = fst (prewriteMutation p t m)"
      "staged p t' m = staged p t m"
    by (rule prewriteMutation_reads_key; use Cons.prems in simp)+
  obtain ke e where f: "fst (prewriteMutation p t m) = (ke, e)"
    by (cases "fst (prewriteMutation p t m)")
  have r: "prewriteMutation p t m = ((ke, e), ?u)"
    using f prewriteMutation_frame [of p t m] by (simp add: prod_eq_iff)
  have r': "prewriteMutation p t' m = ((ke, e), ?u')"
    using f same(1) prewriteMutation_frame [of p t' m] by (simp add: prod_eq_iff)
  have step: "fst (prewriteAll p ms ?u' x) = fst (prewriteAll p ms ?u x)
      \<and> writes (snd (prewriteAll p ms ?u' x)) = writes (snd (prewriteAll p ms ?u x))" for x
    using Cons.prems same(2) by (intro Cons.IH) simp_all
  show ?case
  proof (cases ke)
    case (Some k)
    have "prewriteAll p (m # ms) t response =
        prewriteAll p ms ?u (response\<lparr>Errors := Errors response @ [k]\<rparr>)"
      and "prewriteAll p (m # ms) t' response =
        prewriteAll p ms ?u' (response\<lparr>Errors := Errors response @ [k]\<rparr>)"
      using r r' Some by simp_all
    then show ?thesis by (simp only: step)
  next
    case None
    show ?thesis
    proof (cases e)
      case (Some err)
      have "prewriteAll p (m # ms) t response = ((None, Some err), ?u)"
        and "prewriteAll p (m # ms) t' response = ((None, Some err), ?u')"
        using r r' None Some by simp_all
      then show ?thesis using same(2) Cons.prems(2) by simp
    next
      case None2: None
      have "prewriteAll p (m # ms) t response = prewriteAll p ms ?u response"
        and "prewriteAll p (m # ms) t' response = prewriteAll p ms ?u' response"
        using r r' None None2 by simp_all
      then show ?thesis by (simp only: step)
    qed
  qed
qed

section \<open>Write conflicts\<close>

text \<open>
  C1. When the most recent write of the mutation's key exists and its commit timestamp is
  at or after the start timestamp of the transaction, \<^verbatim>\<open>prewriteMutation\<close> returns the key
  error whose conflict carries exactly the start timestamp, the conflicting commit
  timestamp, the key and the primary key of the request, returns no internal error, and
  leaves the transaction context as it was: no lock, no value, nothing else is staged.
\<close>

theorem prewriteMutation_write_conflict:
  assumes "MostRecentWrite txn (Key mut) = (Some w, commitTs, err)"
    and "StartTS txn \<le> commitTs"
  shows "prewriteMutation p txn mut =
    ((Some \<lparr>Locked = None, Retryable = [],
             Conflict = Some \<lparr>wc_StartTs = StartTS txn, wc_ConflictTs = commitTs,
                               wc_Key = Key mut, wc_Primary = PrimaryLock (request p)\<rparr>\<rparr>,
      None), txn)"
  using assms by (simp add: prewriteMutation_def)

text \<open>
  The key "a" was committed at 12 by another transaction; the transaction starting at 10
  gets the conflict (10, 12, "a", "a") and its buffer stays empty.
\<close>

theorem prewriteMutation_write_conflict_witness:
  "MostRecentWrite exConflictTxn (Key exPut) = (Some \<lparr>w_StartTS = 8, w_Kind = 1\<rparr>, 12, None)
   \<and> StartTS exConflictTxn \<le> 12
   \<and> prewriteMutation exCommand exConflictTxn exPut =
      ((Some \<lparr>Locked = None, Retryable = [],
               Conflict = Some \<lparr>wc_StartTs = 10, wc_ConflictTs = 12,
                                 wc_Key = [97], wc_Primary = [97]\<rparr>\<rparr>,
        None), exConflictTxn)
   \<and> writes (snd (prewriteMutation exCommand exConflictTxn exPut)) = []"
proof -
  have h1: "MostRecentWrite exConflictTxn (Key exPut)
      = (Some \<lparr>w_StartTS = 8, w_Kind = 1\<rparr>, 12, None)"
    by (simp add: example_defs)
  have h2: "StartTS exConflictTxn \<le> 12"
    by (simp add: example_defs)
  show ?thesis
    using h1 h2 prewriteMutation_write_conflict [OF h1 h2, of exCommand]
    by (simp add: example_defs)
qed

text \<open>
  C8. When the lookup of the most recent write returns both a write record committed at or
  after the start timestamp and an internal error, \<^verbatim>\<open>prewriteMutation\<close> returns the
  write conflict and no error: the conflict is tested before the error. The loop of
  \<^verbatim>\<open>PrepareWrites\<close> then records the key error and goes on with the remaining mutations,
  so the command is not aborted by this mutation.
\<close>

theorem prewriteMutation_conflict_discards_error:
  assumes "MostRecentWrite txn (Key mut) = (Some w, commitTs, Some e)"
    and "StartTS txn \<le> commitTs"
  shows "fst (prewriteMutation p txn mut) =
      (Some \<lparr>Locked = None, Retryable = [],
              Conflict = Some \<lparr>wc_StartTs = StartTS txn, wc_ConflictTs = commitTs,
                                wc_Key = Key mut, wc_Primary = PrimaryLock (request p)\<rparr>\<rparr>,
       None)
    \<and> prewriteAll p (mut # ms) txn response =
        prewriteAll p ms txn
          (response\<lparr>Errors := Errors response @
             [\<lparr>Locked = None, Retryable = [],
               Conflict = Some \<lparr>wc_StartTs = StartTS txn, wc_ConflictTs = commitTs,
                                 wc_Key = Key mut, wc_Primary = PrimaryLock (request p)\<rparr>\<rparr>]\<rparr>)"
  using assms by (simp add: prewriteMutation_def)

text \<open>
  The lookup for "a" returns the write committed at 12 together with an error: the call
  reports the conflict, and a command with this single mutation returns a response holding
  that one key error, and no error.
\<close>

theorem prewriteMutation_conflict_discards_error_witness:
  "MostRecentWrite exConflictAndErrorTxn (Key exPut) =
      (Some \<lparr>w_StartTS = 8, w_Kind = 1\<rparr>, 12, Some (InternalError ''iterator closed''))
   \<and> fst (prewriteMutation exCommand exConflictAndErrorTxn exPut) =
      (Some \<lparr>Locked = None, Retryable = [],
              Conflict = Some \<lparr>wc_StartTs = 10, wc_ConflictTs = 12,
                                wc_Key = [97], wc_Primary = [97]\<rparr>\<rparr>,
       None)
   \<and> fst (prewriteAll exCommand [exPut] exConflictAndErrorTxn \<lparr>Errors = []\<rparr>) =
      (Some \<lparr>Errors = [\<lparr>Locked = None, Retryable = [],
                          Conflict = Some \<lparr>wc_StartTs = 10, wc_ConflictTs = 12,
                                            wc_Key = [97], wc_Primary = [97]\<rparr>\<rparr>]\<rparr>,
       None)"
proof -
  have h1: "MostRecentWrite exConflictAndErrorTxn (Key exPut) =
      (Some \<lparr>w_StartTS = 8, w_Kind = 1\<rparr>, 12, Some (InternalError ''iterator closed''))"
    by (simp add: example_defs)
  have h2: "StartTS exConflictAndErrorTxn \<le> 12"
    by (simp add: example_defs)
  show ?thesis
    using h1 prewriteMutation_conflict_discards_error
      [OF h1 h2, of exCommand "[]" "\<lparr>Errors = []\<rparr>"]
    by (simp add: example_defs)
qed

section \<open>Locks found on the key\<close>

text \<open>
  C2, with the condition it needs. When the lookup of the most recent write reports no
  internal error and no write committed at or after the start timestamp, and the key
  carries a lock whose timestamp differs from the start timestamp of the transaction,
  \<^verbatim>\<open>prewriteMutation\<close> returns the key error that holds the lock's information (primary
  key, lock timestamp, key, time-to-live) together with a conflict made of the start
  timestamp, the lock's timestamp, the key and the primary key of the request. It returns
  no internal error and leaves the context as it was: the lock found is not touched and no
  value is staged.
\<close>

theorem prewriteMutation_locked_by_other:
  assumes "MostRecentWrite txn (Key mut) = (w, commitTs, None)"
    and "w = None \<or> commitTs < StartTS txn"
    and "GetLock txn (Key mut) = (Some l, err2)"
    and "Ts l \<noteq> StartTS txn"
  shows "prewriteMutation p txn mut =
    ((Some \<lparr>Locked = Some \<lparr>li_PrimaryLock = Primary l, li_LockVersion = Ts l,
                             li_Key = Key mut, li_LockTtl = Ttl l\<rparr>,
             Retryable = [],
             Conflict = Some \<lparr>wc_StartTs = StartTS txn, wc_ConflictTs = Ts l,
                               wc_Key = Key mut, wc_Primary = PrimaryLock (request p)\<rparr>\<rparr>,
      None), txn)"
  using assms by (auto simp: call_defs)

text \<open>
  The key "a" is locked by the transaction that started at 5 with primary key "p": the
  transaction starting at 10 is told so, and stages nothing.
\<close>

theorem prewriteMutation_locked_by_other_witness:
  "GetLock exOtherLockTxn (Key exPut) = (Some exOtherLock, None)
   \<and> Ts exOtherLock \<noteq> StartTS exOtherLockTxn
   \<and> prewriteMutation exCommand exOtherLockTxn exPut =
      ((Some \<lparr>Locked = Some \<lparr>li_PrimaryLock = [112], li_LockVersion = 5,
                               li_Key = [97], li_LockTtl = 2000\<rparr>,
               Retryable = [],
               Conflict = Some \<lparr>wc_StartTs = 10, wc_ConflictTs = 5,
                                 wc_Key = [97], wc_Primary = [97]\<rparr>\<rparr>,
        None), exOtherLockTxn)
   \<and> writes (snd (prewriteMutation exCommand exOtherLockTxn exPut)) = []"
proof -
  have h1: "MostRecentWrite exOtherLockTxn (Key exPut) = (None, 0, None)"
    by (simp add: example_defs)
  have h2: "(None :: Write option) = None \<or> (0 :: ts) < StartTS exOtherLockTxn"
    by simp
  have h3: "GetLock exOtherLockTxn (Key exPut) = (Some exOtherLock, None)"
    by (simp add: example_defs)
  have h4: "Ts exOtherLock \<noteq> StartTS exOtherLockTxn"
    by (simp add: example_defs)
  show ?thesis
    using h3 h4 prewriteMutation_locked_by_other [OF h1 h2 h3 h4, of exCommand]
    by (simp add: example_defs)
qed

text \<open>
  Without the condition the statement fails: the key "a" carries the lock of the
  transaction that started at 5 and the write lookup returns no write record, but it
  fails; the call returns the internal error and no key error.
\<close>

theorem prewriteMutation_locked_by_other_counterexample:
  "fst (GetLock exFailOtherLockTxn (Key exPut)) = Some exOtherLock
   \<and> Ts exOtherLock \<noteq> StartTS exFailOtherLockTxn
   \<and> fst (MostRecentWrite exFailOtherLockTxn (Key exPut)) = None
   \<and> prewriteMutation exCommand exFailOtherLockTxn exPut =
      ((None, Some (InternalError ''write lookup failed'')), exFailOtherLockTxn)"
  by (simp add: call_defs example_defs)

text \<open>
  C3, with the condition it needs. When the lookup of the most recent write reports no
  internal error and no write committed at or after the start timestamp, and the key
  carries a lock with the start timestamp of the transaction, \<^verbatim>\<open>prewriteMutation\<close>
  returns success (no key error, no internal error) and the context exactly as it was: no
  lock and no value is staged again. Hence, when that lock is the one an earlier call of
  the same mutation staged from an empty buffer on the then unlocked key, the buffers of
  the two calls hold together exactly that one lock and, as value changes, exactly what
  the first call staged: the one value for Put, the one tombstone for Delete, and nothing
  for any other operation.
\<close>

theorem prewriteMutation_same_lock_noop:
  assumes "MostRecentWrite txn (Key mut) = (w, commitTs, None)"
    and "w = None \<or> commitTs < StartTS txn"
    and "GetLock txn (Key mut) = (Some l, err2)"
    and "Ts l = StartTS txn"
  shows "prewriteMutation p txn mut = ((None, None), txn)
    \<and> (\<forall>txn1. StartTS txn1 = StartTS txn \<and> writes txn1 = [] \<and> writes txn = []
          \<and> MostRecentWrite txn1 (Key mut) = MostRecentWrite txn (Key mut)
          \<and> GetLock txn1 (Key mut) = (None, None)
          \<and> LockPut (Key mut) l \<in> set (writes (snd (prewriteMutation p txn1 mut)))
        \<longrightarrow> fst (prewriteMutation p txn1 mut) = (None, None)
          \<and> filter isLockPut (writes (snd (prewriteMutation p txn1 mut))
                @ writes (snd (prewriteMutation p txn mut))) = [LockPut (Key mut) l]
          \<and> filter isValueChange (writes (snd (prewriteMutation p txn1 mut))
                @ writes (snd (prewriteMutation p txn mut))) =
              (if Op mut = Op_Put then [DefaultPut (Key mut) (StartTS txn) (Value mut)]
               else if Op mut = Op_Del then [DefaultDelete (Key mut) (StartTS txn)]
               else []))"
proof -
  have second: "prewriteMutation p txn mut = ((None, None), txn)"
    using assms by (auto simp: call_defs)
  have first: "fst (prewriteMutation p txn1 mut) = (None, None)
      \<and> filter isLockPut (writes (snd (prewriteMutation p txn1 mut))
            @ writes (snd (prewriteMutation p txn mut))) = [LockPut (Key mut) l]
      \<and> filter isValueChange (writes (snd (prewriteMutation p txn1 mut))
            @ writes (snd (prewriteMutation p txn mut))) =
          (if Op mut = Op_Put then [DefaultPut (Key mut) (StartTS txn) (Value mut)]
           else if Op mut = Op_Del then [DefaultDelete (Key mut) (StartTS txn)]
           else [])"
    if h: "StartTS txn1 = StartTS txn" "writes txn1 = []" "writes txn = []"
      "MostRecentWrite txn1 (Key mut) = MostRecentWrite txn (Key mut)"
      "GetLock txn1 (Key mut) = (None, None)"
      "LockPut (Key mut) l \<in> set (writes (snd (prewriteMutation p txn1 mut)))"
    for txn1
    using h assms(1,2) unfolding second
    by (auto simp: call_defs split: if_splits)
  show ?thesis using second first by blast
qed

text \<open>
  The first prewrite of "a" on the unlocked key stages the lock and the value "v1"; the
  retry, which finds that lock, succeeds and stages nothing, so one lock and one value are
  staged in all.
\<close>

theorem prewriteMutation_same_lock_noop_witness:
  "GetLock exOwnLockTxn (Key exPut) = (Some exOwnLock, None)
   \<and> Ts exOwnLock = StartTS exOwnLockTxn
   \<and> LockPut (Key exPut) exOwnLock \<in> set (writes (snd (prewriteMutation exCommand exFreshTxn exPut)))
   \<and> prewriteMutation exCommand exOwnLockTxn exPut = ((None, None), exOwnLockTxn)
   \<and> fst (prewriteMutation exCommand exFreshTxn exPut) = (None, None)
   \<and> filter isLockPut (writes (snd (prewriteMutation exCommand exFreshTxn exPut))
        @ writes (snd (prewriteMutation exCommand exOwnLockTxn exPut))) = [LockPut [97] exOwnLock]
   \<and> filter isValueChange (writes (snd (prewriteMutation exCommand exFreshTxn exPut))
        @ writes (snd (prewriteMutation exCommand exOwnLockTxn exPut))) =
      [DefaultPut [97] 10 [118, 49]]"
proof -
  have h1: "MostRecentWrite exOwnLockTxn (Key exPut) = (None, 0, None)"
    by (simp add: example_defs)
  have h2: "(None :: Write option) = None \<or> (0 :: ts) < StartTS exOwnLockTxn"
    by simp
  have h3: "GetLock exOwnLockTxn (Key exPut) = (Some exOwnLock, None)"
    by (simp add: example_defs)
  have h4: "Ts exOwnLock = StartTS exOwnLockTxn"
    by (simp add: example_defs)
  note t = prewriteMutation_same_lock_noop [OF h1 h2 h3 h4, of exCommand]
  have staged_before:
    "LockPut (Key exPut) exOwnLock \<in> set (writes (snd (prewriteMutation exCommand exFreshTxn exPut)))"
    by (simp add: call_defs example_defs)
  have pre: "StartTS exFreshTxn = StartTS exOwnLockTxn \<and> writes exFreshTxn = []
      \<and> writes exOwnLockTxn = []
      \<and> MostRecentWrite exFreshTxn (Key exPut) = MostRecentWrite exOwnLockTxn (Key exPut)
      \<and> GetLock exFreshTxn (Key exPut) = (None, None)
      \<and> LockPut (Key exPut) exOwnLock
          \<in> set (writes (snd (prewriteMutation exCommand exFreshTxn exPut)))"
    using staged_before by (simp add: example_defs)
  from t have a: "prewriteMutation exCommand exOwnLockTxn exPut = ((None, None), exOwnLockTxn)"
    by (rule conjunct1)
  from t pre have b: "fst (prewriteMutation exCommand exFreshTxn exPut) = (None, None)
      \<and> filter isLockPut (writes (snd (prewriteMutation exCommand exFreshTxn exPut))
            @ writes (snd (prewriteMutation exCommand exOwnLockTxn exPut)))
          = [LockPut (Key exPut) exOwnLock]
      \<and> filter isValueChange (writes (snd (prewriteMutation exCommand exFreshTxn exPut))
            @ writes (snd (prewriteMutation exCommand exOwnLockTxn exPut))) =
          (if Op exPut = Op_Put
           then [DefaultPut (Key exPut) (StartTS exOwnLockTxn) (Value exPut)]
           else if Op exPut = Op_Del then [DefaultDelete (Key exPut) (StartTS exOwnLockTxn)]
           else [])"
    by blast
  have c: "Key exPut = [97]" "Op exPut = Op_Put" "Value exPut = [118, 49]"
      "StartTS exOwnLockTxn = 10"
    by (simp_all add: example_defs)
  show ?thesis
    using h3 h4 staged_before a b unfolding c by simp
qed

text \<open>
  As first stated (success whenever the key carries the transaction's own lock and no
  conflicting write is found; one lock and one value after two calls) the statement fails
  in two places. The key "a" carries the transaction's own lock and the write lookup
  returns no write record, but it fails: the call returns the internal error, not
  success. And for the Rollback mutation on "c" both lookups succeed, the first call
  stages the lock, the retry finds it and succeeds, and the two buffers hold together that
  one lock and no value change at all.
\<close>

theorem prewriteMutation_same_lock_noop_counterexample:
  "fst (GetLock exFailOwnLockTxn (Key exPut)) = Some exOwnLock
   \<and> Ts exOwnLock = StartTS exFailOwnLockTxn
   \<and> fst (MostRecentWrite exFailOwnLockTxn (Key exPut)) = None
   \<and> fst (prewriteMutation exCommand exFailOwnLockTxn exPut) =
      (None, Some (InternalError ''write lookup failed''))
   \<and> MostRecentWrite exFreshTxn (Key exRollback) = (None, 0, None)
   \<and> GetLock exFreshTxn (Key exRollback) = (None, None)
   \<and> MostRecentWrite exOwnRollbackLockTxn (Key exRollback) = (None, 0, None)
   \<and> GetLock exOwnRollbackLockTxn (Key exRollback) = (Some exOwnRollbackLock, None)
   \<and> Ts exOwnRollbackLock = StartTS exOwnRollbackLockTxn
   \<and> fst (prewriteMutation exCommand exFreshTxn exRollback) = (None, None)
   \<and> fst (prewriteMutation exCommand exOwnRollbackLockTxn exRollback) = (None, None)
   \<and> filter isLockPut (writes (snd (prewriteMutation exCommand exFreshTxn exRollback))
        @ writes (snd (prewriteMutation exCommand exOwnRollbackLockTxn exRollback))) =
      [LockPut [99] exOwnRollbackLock]
   \<and> filter isValueChange (writes (snd (prewriteMutation exCommand exFreshTxn exRollback))
        @ writes (snd (prewriteMutation exCommand exOwnRollbackLockTxn exRollback))) = []"
  by (simp add: call_defs example_defs)

section \<open>Installing the lock and the value\<close>

text \<open>
  C4, with the condition it needs. When both lookups succeed (neither reports an internal
  error), the most recent write is absent or committed before the start timestamp, and
  the key carries no lock, \<^verbatim>\<open>prewriteMutation\<close> returns success and appends to the buffer
  exactly: the lock made of the request's primary key, the start timestamp, the request's
  time-to-live and the kind computed from the operation code; then, for Put, the
  mutation's value at the start timestamp, and for Delete a tombstone at the start
  timestamp (a staged deletion, not a stored value). No write record is staged.
\<close>

theorem prewriteMutation_installs:
  assumes "MostRecentWrite txn (Key mut) = (w, commitTs, None)"
    and "w = None \<or> commitTs < StartTS txn"
    and "GetLock txn (Key mut) = (None, None)"
  shows "prewriteMutation p txn mut =
      ((None, None),
       txn\<lparr>writes := writes txn @
         LockPut (Key mut) \<lparr>Primary = PrimaryLock (request p), Ts = StartTS txn,
                            Ttl = LockTtl (request p), Kind = sint (Op mut + 1)\<rparr> #
         (if Op mut = Op_Put then [DefaultPut (Key mut) (StartTS txn) (Value mut)]
          else if Op mut = Op_Del then [DefaultDelete (Key mut) (StartTS txn)]
          else [])\<rparr>)
    \<and> filter isWriteRecord (writes (snd (prewriteMutation p txn mut))) =
        filter isWriteRecord (writes txn)"
  using assms by (auto simp: call_defs)

text \<open>
  On the fresh snapshot the put of "v1" under "a" stages the lock and the value, the
  deletion of "b" stages the lock and a tombstone.
\<close>

theorem prewriteMutation_installs_witness:
  "MostRecentWrite exFreshTxn (Key exPut) = (None, 0, None)
   \<and> GetLock exFreshTxn (Key exPut) = (None, None)
   \<and> fst (prewriteMutation exCommand exFreshTxn exPut) = (None, None)
   \<and> writes (snd (prewriteMutation exCommand exFreshTxn exPut)) =
      [LockPut [97] \<lparr>Primary = [97], Ts = 10, Ttl = 3000, Kind = 1\<rparr>,
       DefaultPut [97] 10 [118, 49]]
   \<and> writes (snd (prewriteMutation exCommand exFreshTxn exDel)) =
      [LockPut [98] \<lparr>Primary = [97], Ts = 10, Ttl = 3000, Kind = 2\<rparr>,
       DefaultDelete [98] 10]"
proof -
  have p1: "MostRecentWrite exFreshTxn (Key exPut) = (None, 0, None)"
    and p3: "GetLock exFreshTxn (Key exPut) = (None, None)"
    and d1: "MostRecentWrite exFreshTxn (Key exDel) = (None, 0, None)"
    and d3: "GetLock exFreshTxn (Key exDel) = (None, None)"
    by (simp_all add: example_defs)
  have h2: "(None :: Write option) = None \<or> (0 :: ts) < StartTS exFreshTxn"
    by simp
  show ?thesis
    using p1 p3
      prewriteMutation_installs [OF p1 h2 p3, of exCommand]
      prewriteMutation_installs [OF d1 h2 d3, of exCommand]
    by (simp add: example_defs)
qed

text \<open>
  Without the condition the statement fails: the key "a" has no lock and the write lookup
  returns no write record, but it fails; the call returns the internal error and stages
  no lock.
\<close>

theorem prewriteMutation_installs_counterexample:
  "fst (MostRecentWrite exFailUnlockedTxn (Key exPut)) = None
   \<and> GetLock exFailUnlockedTxn (Key exPut) = (None, None)
   \<and> fst (prewriteMutation exCommand exFailUnlockedTxn exPut) =
      (None, Some (InternalError ''write lookup failed''))
   \<and> writes (snd (prewriteMutation exCommand exFailUnlockedTxn exPut)) = []"
  by (simp add: call_defs example_defs)

text \<open>
  C7. Every lock a call of \<^verbatim>\<open>prewriteMutation\<close> stages has the kind of its operation: the
  Put write kind when the operation is Put, the Delete write kind when it is Delete.
\<close>

theorem staged_lock_kind:
  assumes "LockPut k l \<in> set (staged p txn mut)"
  shows "(Op mut = Op_Put \<longrightarrow> Kind l = WriteKindPut)
    \<and> (Op mut = Op_Del \<longrightarrow> Kind l = WriteKindDelete)"
  using assms
  by (auto simp: staged_def call_defs Op_Put_def Op_Del_def WriteKindPut_def WriteKindDelete_def
      split: prod.splits option.splits if_splits)

text \<open>The locks staged for the put of "a" and for the deletion of "b".\<close>

theorem staged_lock_kind_witness:
  "LockPut [97] \<lparr>Primary = [97], Ts = 10, Ttl = 3000, Kind = 1\<rparr>
      \<in> set (staged exCommand exFreshTxn exPut)
   \<and> Op exPut = Op_Put
   \<and> Kind \<lparr>Primary = [97], Ts = 10, Ttl = 3000, Kind = 1\<rparr> = WriteKindPut
   \<and> LockPut [98] \<lparr>Primary = [97], Ts = 10, Ttl = 3000, Kind = 2\<rparr>
      \<in> set (staged exCommand exFreshTxn exDel)
   \<and> Op exDel = Op_Del
   \<and> Kind \<lparr>Primary = [97], Ts = 10, Ttl = 3000, Kind = 2\<rparr> = WriteKindDelete"
proof -
  have a: "LockPut [97] \<lparr>Primary = [97], Ts = 10, Ttl = 3000, Kind = 1\<rparr>
      \<in> set (staged exCommand exFreshTxn exPut)"
    and b: "LockPut [98] \<lparr>Primary = [97], Ts = 10, Ttl = 3000, Kind = 2\<rparr>
      \<in> set (staged exCommand exFreshTxn exDel)"
    by (simp_all add: staged_def call_defs example_defs)
  have ops: "Op exPut = Op_Put" "Op exDel = Op_Del"
    by (simp_all add: exPut_def exDel_def)
  show ?thesis
    using a b ops staged_lock_kind [OF a] staged_lock_kind [OF b] by blast
qed

text \<open>
  C9, with the condition it needs. For a mutation whose operation is neither Put nor
  Delete, when both lookups succeed, the most recent write is absent or committed before
  the start timestamp, and the key carries no lock, \<^verbatim>\<open>prewriteMutation\<close> returns success
  and stages the lock alone, no value change. The kind of that lock is the operation code
  plus one, the sum \<^verbatim>\<open>mut.Op + 1\<close> of the source.
\<close>

theorem prewriteMutation_other_op:
  assumes "Op mut \<noteq> Op_Put" and "Op mut \<noteq> Op_Del"
    and "MostRecentWrite txn (Key mut) = (w, commitTs, None)"
    and "w = None \<or> commitTs < StartTS txn"
    and "GetLock txn (Key mut) = (None, None)"
  shows "prewriteMutation p txn mut =
    ((None, None),
     txn\<lparr>writes := writes txn @
       [LockPut (Key mut)
          \<lparr>Primary = PrimaryLock (request p), Ts = StartTS txn, Ttl = LockTtl (request p),
           Kind = sint (Op mut + 1)\<rparr>]\<rparr>)"
  using assms by (auto simp: call_defs)

text \<open>A mutation with the operation code Rollback (2) on the key "c": a lock of kind 3.\<close>

theorem prewriteMutation_other_op_witness:
  "Op exRollback \<noteq> Op_Put \<and> Op exRollback \<noteq> Op_Del
   \<and> fst (prewriteMutation exCommand exFreshTxn exRollback) = (None, None)
   \<and> writes (snd (prewriteMutation exCommand exFreshTxn exRollback)) =
      [LockPut [99] \<lparr>Primary = [97], Ts = 10, Ttl = 3000, Kind = 3\<rparr>]"
proof -
  have h1: "Op exRollback \<noteq> Op_Put" and h2: "Op exRollback \<noteq> Op_Del"
    and h3: "MostRecentWrite exFreshTxn (Key exRollback) = (None, 0, None)"
    and h5: "GetLock exFreshTxn (Key exRollback) = (None, None)"
    by (simp_all add: example_defs)
  have h4: "(None :: Write option) = None \<or> (0 :: ts) < StartTS exFreshTxn"
    by simp
  show ?thesis
    using h1 h2 prewriteMutation_other_op [OF h1 h2 h3 h4 h5, of exCommand]
    by (simp add: example_defs)
qed

text \<open>
  Without the conditions the statement fails: the key "c" has no lock and the write lookup
  returns no write record, but it fails; the call returns the internal error and stages
  no lock.
\<close>

theorem prewriteMutation_other_op_counterexample:
  "Op exRollback \<noteq> Op_Put \<and> Op exRollback \<noteq> Op_Del
   \<and> fst (MostRecentWrite exFailUnlockedTxn (Key exRollback)) = None
   \<and> GetLock exFailUnlockedTxn (Key exRollback) = (None, None)
   \<and> prewriteMutation exCommand exFailUnlockedTxn exRollback =
      ((None, Some (InternalError ''write lookup failed'')), exFailUnlockedTxn)
   \<and> writes (snd (prewriteMutation exCommand exFailUnlockedTxn exRollback)) = []"
  by (simp add: call_defs example_defs)

section \<open>The batch\<close>

text \<open>
  C5. \<^verbatim>\<open>PrepareWrites\<close> decides every mutation on its own, against the snapshot the command
  started with. If no mutation fails internally, it returns the response holding one key
  error for each mutation that has one, in the order of the mutations, and no error: a key
  error never ends the batch, and the empty list means full success. If some mutation
  fails internally (an error without a key error), it returns a nil response and the
  error of the first such mutation.
\<close>

theorem PrepareWrites_collects_key_errors:
  "fst (PrepareWrites p txn) =
    (case find (\<lambda>m. abortsWith p txn m \<noteq> None) (Mutations (request p)) of
       None \<Rightarrow>
         (Some \<lparr>Errors = List.map_filter (keyErrorOf p txn) (Mutations (request p))\<rparr>, None)
     | Some m \<Rightarrow> (None, abortsWith p txn m))"
  by (simp add: PrepareWrites_def prewriteAll_result cong: option.case_cong)

text \<open>
  With "a" committed at 12 and "b" locked by the transaction of 5, the response lists the
  write conflict of "a" and then the lock of "b"; on the fresh snapshot the list is empty;
  with "a" locked and the write lookup of "b" failing, the command returns nil and that
  error.
\<close>

theorem PrepareWrites_collects_key_errors_witness:
  "fst (PrepareWrites exCommand exMixedTxn) =
      (Some \<lparr>Errors =
         [\<lparr>Locked = None, Retryable = [],
           Conflict = Some \<lparr>wc_StartTs = 10, wc_ConflictTs = 12,
                             wc_Key = [97], wc_Primary = [97]\<rparr>\<rparr>,
          \<lparr>Locked = Some \<lparr>li_PrimaryLock = [112], li_LockVersion = 5,
                           li_Key = [98], li_LockTtl = 2000\<rparr>,
           Retryable = [],
           Conflict = Some \<lparr>wc_StartTs = 10, wc_ConflictTs = 5,
                             wc_Key = [98], wc_Primary = [97]\<rparr>\<rparr>]\<rparr>,
       None)
   \<and> fst (PrepareWrites exCommand exFreshTxn) = (Some \<lparr>Errors = []\<rparr>, None)
   \<and> fst (PrepareWrites exCommand exAbortTxn) =
      (None, Some (InternalError ''write lookup failed''))"
  using PrepareWrites_collects_key_errors [of exCommand exMixedTxn]
    PrepareWrites_collects_key_errors [of exCommand exFreshTxn]
    PrepareWrites_collects_key_errors [of exCommand exAbortTxn]
  by (simp add: keyErrorOf_def abortsWith_def call_defs example_defs List.map_filter_simps)

text \<open>
  C6. By the specification, and by the comment above the function, a failing lock lookup
  makes \<^verbatim>\<open>prewriteMutation\<close> return the internal error, so that the command is aborted
  and nothing is staged for the key. The source does not do so: the error of the lock
  lookup is never read. With the lookup of the lock of "a" failing, the call returns
  success and stages the lock and the value, and the command returns a response without
  errors.
\<close>

theorem prewriteMutation_lock_lookup_error_ignored:
  "GetLock exLockLookupFailsTxn (Key exPut) = (None, Some (InternalError ''lock lookup failed''))
   \<and> prewriteMutation exCommand exLockLookupFailsTxn exPut =
      ((None, None),
       exLockLookupFailsTxn\<lparr>writes :=
         [LockPut [97] \<lparr>Primary = [97], Ts = 10, Ttl = 3000, Kind = 1\<rparr>,
          DefaultPut [97] 10 [118, 49]]\<rparr>)
   \<and> fst (PrepareWrites exCommand exLockLookupFailsTxn) = (Some \<lparr>Errors = []\<rparr>, None)"
  by (simp add: PrepareWrites_def call_defs example_defs)

section \<open>The declared keys\<close>

text \<open>
  C10. \<^verbatim>\<open>WillWrite\<close> returns the keys of the mutations in the order of the request, one
  entry for each mutation, duplicates kept. These are the keys the command works on: every
  modification \<^verbatim>\<open>PrepareWrites\<close> stages is for one of them, and its result and its staged
  modifications are the same on any two snapshots that agree on them.
\<close>

theorem WillWrite_mutation_keys:
  "WillWrite p = map Key (Mutations (request p))
   \<and> length (WillWrite p) = length (Mutations (request p))
   \<and> (\<forall>w\<in>set (writes (snd (PrepareWrites p txn))).
        w \<in> set (writes txn) \<or> modifyKey w \<in> set (WillWrite p))
   \<and> (\<forall>txn'. StartTS txn' = StartTS txn \<and> writes txn' = writes txn
        \<and> (\<forall>k\<in>set (WillWrite p).
              MostRecentWrite txn' k = MostRecentWrite txn k \<and> GetLock txn' k = GetLock txn k)
        \<longrightarrow> fst (PrepareWrites p txn') = fst (PrepareWrites p txn)
          \<and> writes (snd (PrepareWrites p txn')) = writes (snd (PrepareWrites p txn)))"
proof -
  have keys: "WillWrite p = map Key (Mutations (request p))"
    by (simp add: WillWrite_def willWriteLoop_map)
  obtain ws where ws: "snd (PrepareWrites p txn) = txn\<lparr>writes := writes txn @ ws\<rparr>"
    and sub: "modifyKey ` set ws \<subseteq> Key ` set (Mutations (request p))"
    using prewriteAll_frame [of p "Mutations (request p)" txn "\<lparr>Errors = []\<rparr>"]
    unfolding PrepareWrites_def by (elim exE conjE)
  have staged_in: "\<forall>w\<in>set (writes (snd (PrepareWrites p txn))).
      w \<in> set (writes txn) \<or> modifyKey w \<in> set (WillWrite p)"
    using sub by (auto simp: ws keys)
  have reads: "fst (PrepareWrites p txn') = fst (PrepareWrites p txn)
      \<and> writes (snd (PrepareWrites p txn')) = writes (snd (PrepareWrites p txn))"
    if "StartTS txn' = StartTS txn" "writes txn' = writes txn"
      "\<forall>k\<in>set (WillWrite p).
          MostRecentWrite txn' k = MostRecentWrite txn k \<and> GetLock txn' k = GetLock txn k"
    for txn'
    unfolding PrepareWrites_def using that by (intro prewriteAll_reads_keys) (simp_all add: keys)
  show ?thesis
  proof (intro conjI allI impI)
    show "WillWrite p = map Key (Mutations (request p))" by (rule keys)
    show "length (WillWrite p) = length (Mutations (request p))" by (simp add: keys)
    show "\<forall>w\<in>set (writes (snd (PrepareWrites p txn))).
        w \<in> set (writes txn) \<or> modifyKey w \<in> set (WillWrite p)" by (rule staged_in)
  next
    fix txn' :: MvccTxn
    assume "StartTS txn' = StartTS txn \<and> writes txn' = writes txn
        \<and> (\<forall>k\<in>set (WillWrite p).
              MostRecentWrite txn' k = MostRecentWrite txn k \<and> GetLock txn' k = GetLock txn k)"
    then have r: "fst (PrepareWrites p txn') = fst (PrepareWrites p txn)
      \<and> writes (snd (PrepareWrites p txn')) = writes (snd (PrepareWrites p txn))"
      by (intro reads) blast+
    from r show "fst (PrepareWrites p txn') = fst (PrepareWrites p txn)" by (rule conjunct1)
    from r show "writes (snd (PrepareWrites p txn')) = writes (snd (PrepareWrites p txn))"
      by (rule conjunct2)
  qed
qed

text \<open>
  The command on "a" and "b" declares these two keys; the lock it stages for "b" is for a
  declared key; a snapshot that differs from the fresh one at the keys "x" and "y" only
  gives the same result and the same staged modifications.
\<close>

theorem WillWrite_mutation_keys_witness:
  "WillWrite exCommand = [[97], [98]]
   \<and> LockPut [98] \<lparr>Primary = [97], Ts = 10, Ttl = 3000, Kind = 2\<rparr>
        \<in> set (writes (snd (PrepareWrites exCommand exFreshTxn)))
   \<and> modifyKey (LockPut [98] \<lparr>Primary = [97], Ts = 10, Ttl = 3000, Kind = 2\<rparr>)
        \<in> set (WillWrite exCommand)
   \<and> MostRecentWrite exElsewhereTxn [120] \<noteq> MostRecentWrite exFreshTxn [120]
   \<and> GetLock exElsewhereTxn [121] \<noteq> GetLock exFreshTxn [121]
   \<and> fst (PrepareWrites exCommand exElsewhereTxn) = fst (PrepareWrites exCommand exFreshTxn)
   \<and> writes (snd (PrepareWrites exCommand exElsewhereTxn)) =
      writes (snd (PrepareWrites exCommand exFreshTxn))"
proof -
  note t = WillWrite_mutation_keys [of exCommand exFreshTxn]
  from t have keys: "WillWrite exCommand = map Key (Mutations (request exCommand))"
    by (rule conjunct1)
  then have k: "WillWrite exCommand = [[97], [98]]"
    by (simp add: example_defs)
  have pre: "StartTS exElsewhereTxn = StartTS exFreshTxn
      \<and> writes exElsewhereTxn = writes exFreshTxn
      \<and> (\<forall>k\<in>set (WillWrite exCommand).
            MostRecentWrite exElsewhereTxn k = MostRecentWrite exFreshTxn k
            \<and> GetLock exElsewhereTxn k = GetLock exFreshTxn k)"
    unfolding k by (simp add: example_defs)
  from t pre have same: "fst (PrepareWrites exCommand exElsewhereTxn) =
        fst (PrepareWrites exCommand exFreshTxn)
      \<and> writes (snd (PrepareWrites exCommand exElsewhereTxn)) =
        writes (snd (PrepareWrites exCommand exFreshTxn))"
    by blast
  have st: "LockPut [98] \<lparr>Primary = [97], Ts = 10, Ttl = 3000, Kind = 2\<rparr>
      \<in> set (writes (snd (PrepareWrites exCommand exFreshTxn)))"
    by (simp add: PrepareWrites_def call_defs example_defs)
  have diff: "MostRecentWrite exElsewhereTxn [120] \<noteq> MostRecentWrite exFreshTxn [120]"
      "GetLock exElsewhereTxn [121] \<noteq> GetLock exFreshTxn [121]"
    by (simp_all add: example_defs)
  show ?thesis
    using k st diff same by simp
qed

end
